theory Spec2Isabelle
  imports Complex_Main
begin

section \<open>Data model of \<open>data_bridges_repository_impl.py\<close>\<close>

text \<open>
  The repository class \<open>DataBridgesRepositoryImpl\<close> talks to two collaborators that are not
  part of the repository: the generated API client (one bound method per endpoint) and the
  token provider \<open>WfpApiToken\<close>. Both are modelled as oracles: the outcome of their
  \<open>k\<close>-th invocation is given by a function of \<open>k\<close>, and the repository state counts the
  invocations made so far. Exceptions are values (\<open>Inl\<close>), \<open>time.sleep\<close> appends its
  argument to a list, and every \<open>logger\<close> call appends an entry to the log.
  Python names with a leading underscore lose it (\<open>_retry_with_backoff\<close> is
  \<open>retry_with_backoff\<close>).
\<close>

subsection \<open>Python values and exceptions\<close>

text \<open>
  \<open>PyObj attrs\<close> is an instance of an ordinary class whose \<open>__dict__\<close> is \<open>attrs\<close>;
  no other value of the model has a \<open>__dict__\<close>.
\<close>

datatype pyval =
    PyNone
  | PyInt int
  | PyStr string
  | PyList "pyval list"
  | PyDict "(string \<times> pyval) list"
  | PyObj "(string \<times> pyval) list"

datatype exn =
    ApiException int
  | Exception string
  | AttributeError
  | KeyError
  | TypeError
  | ValueError
  | ZeroDivisionError

type_synonym params = "string \<rightharpoonup> pyval"

text \<open>
  A page result of the generated client: \<open>None\<close> in a field means that the object has no
  such attribute (\<open>hasattr\<close> is false).
\<close>

record response =
  total_items :: "int option"
  items :: "pyval option"

text \<open>
  A data frame is represented by the list of its rows, and \<open>pd.DataFrame()\<close> is the empty
  list. What the constructor of pandas builds from a value (or raises), and how
  \<open>pd.concat\<close> aligns the columns of two frames, is not part of the repository: both are
  parameters of the model, see \<open>env\<close> below.
\<close>

type_synonym dataframe = "pyval list"

subsection \<open>Endpoints\<close>

datatype EndpointType = CURRENCY_USD_QUOTE | ECONOMIC_DATA_LIST | ECONOMIC_DATA_VALUES

fun value_of :: "EndpointType \<Rightarrow> string" where
  "value_of CURRENCY_USD_QUOTE = ''vamdatabridges_currency-usdindirectquotation_get''"
| "value_of ECONOMIC_DATA_LIST = ''vamdatabridges_economicdata-indicatorlist_get''"
| "value_of ECONOMIC_DATA_VALUES = ''vamdatabridges_economicdata_get''"

text \<open>
  The \<open>endpoint\<close> argument is only annotated as \<open>EndpointType\<close>; Python accepts any
  value there. \<open>Foreign\<close> stands for a value that is not a member of the enumeration.
\<close>

datatype endpoint_arg = Member EndpointType | Foreign string

text \<open>
  A bound API method: given the keyword arguments and the number of remote invocations made
  before this one, it returns a page result or raises.
\<close>

type_synonym endpoint_method = "params \<Rightarrow> nat \<Rightarrow> exn + response"

record env =
  token_refresh :: "string \<Rightarrow> string \<Rightarrow> string list \<Rightarrow> nat \<Rightarrow> exn + string"
  currency_usd_indirect_quotation_get :: endpoint_method
  economic_data_indicator_list_get :: endpoint_method
  economic_data_indicator_name_get :: endpoint_method
  pd_DataFrame :: "pyval \<Rightarrow> exn + dataframe"
  pd_concat :: "dataframe \<Rightarrow> dataframe \<Rightarrow> dataframe"

text \<open>
  \<open>self.endpoint_dict\<close>, built once in \<open>__init__\<close> and never rebuilt afterwards.
\<close>

fun endpoint_dict :: "env \<Rightarrow> endpoint_arg \<Rightarrow> endpoint_method option" where
  "endpoint_dict E (Member CURRENCY_USD_QUOTE) = Some (currency_usd_indirect_quotation_get E)"
| "endpoint_dict E (Member ECONOMIC_DATA_LIST) = Some (economic_data_indicator_list_get E)"
| "endpoint_dict E (Member ECONOMIC_DATA_VALUES) = Some (economic_data_indicator_name_get E)"
| "endpoint_dict E (Foreign label) = None"

subsection \<open>Repository state\<close>

datatype log_level = INFO | WARNING | ERROR

datatype log_msg =
    Token_refresh_called
  | Access_token_refreshed
  | Token_refresh_failed_retrying int nat
  | Failed_to_refresh exn
  | Unexpected_refresh_error exn
  | Invalid_endpoint endpoint_arg
  | Token_expired
  | Api_exception_retrying exn
  | Api_exception exn
  | Error_fetching exn
  | Retrying_in nat
  | Total_pages pyval int int
  | Fetching_page string
  | No_response_data

text \<open>
  What the repository does to the outside world, in the order in which it does it: the
  \<open>k\<close>-th invocation of a remote operation, the \<open>k\<close>-th call of the token provider, and
  \<open>time.sleep(t)\<close>.
\<close>

datatype event = Invoked nat | Provider_called nat | Slept nat

record repo =
  key :: string
  secret :: string
  scopes :: "string list"
  access_token :: "string option"
  api_client :: nat
  api_instances :: nat
  api_calls :: nat
  token_calls :: nat
  refresh_invocations :: nat
  slept :: "nat list"
  logged :: "(log_level \<times> log_msg) list"
  submitted :: "params list"
  events :: "event list"

text \<open>
  \<open>api_client\<close> numbers the \<open>ApiClient\<close> objects built so far and \<open>api_instances\<close> is the
  client the current API instances wrap; \<open>api_calls\<close> and \<open>token_calls\<close> count the
  invocations of the two collaborators; \<open>refresh_invocations\<close> counts the calls of
  \<open>_refresh_access_token\<close>; \<open>submitted\<close> lists the arguments of \<open>executor.submit\<close>;
  \<open>events\<close> is the trace of invocations and sleeps, oldest first.
\<close>

definition logger :: "log_level \<Rightarrow> log_msg \<Rightarrow> repo \<Rightarrow> repo" where
  "logger lvl msg s = s\<lparr>logged := logged s @ [(lvl, msg)]\<rparr>"

definition sleep :: "nat \<Rightarrow> repo \<Rightarrow> repo" where
  "sleep t s = s\<lparr>slept := slept s @ [t], events := events s @ [Slept t]\<rparr>"

definition retryable :: "int \<Rightarrow> bool" where
  "retryable status = (status \<in> set [429, 500, 502, 503, 504])"

definition max_retries_token :: nat where "max_retries_token = 5"
definition max_retries_page :: nat where "max_retries_page = 10"
definition backoff_factor :: nat where "backoff_factor = 2"
definition CURRENT_MAX_DATA_BRIDGES_PAGE_SIZE :: int where
  "CURRENT_MAX_DATA_BRIDGES_PAGE_SIZE = 1000"

section \<open>Token refresh\<close>

text \<open>
  The body of the loop \<open>for attempt in range(max_retries)\<close> of \<open>_refresh_access_token\<close>,
  over the attempts still to run; the empty list is the statement after the loop.
\<close>

fun refresh_attempts ::
  "env \<Rightarrow> string \<Rightarrow> string \<Rightarrow> string list \<Rightarrow> nat list \<Rightarrow> repo \<Rightarrow> (exn + unit) \<times> repo" where
  "refresh_attempts E k sec sc [] s =
     (Inl (Exception ''Max retries reached while trying to refresh the access token.''), s)"
| "refresh_attempts E k sec sc (attempt # rest) s =
     (let s1 = s\<lparr>token_calls := token_calls s + 1,
                 events := events s @ [Provider_called (token_calls s)]\<rparr> in
      case token_refresh E k sec sc (token_calls s) of
        Inr token \<Rightarrow>
          (Inr (), logger INFO Access_token_refreshed (s1\<lparr>access_token := Some token\<rparr>))
      | Inl (ApiException status) \<Rightarrow>
          if retryable status then
            let wait_time = backoff_factor ^ attempt in
            refresh_attempts E k sec sc rest
              (sleep wait_time (logger WARNING (Token_refresh_failed_retrying status wait_time) s1))
          else (Inl (ApiException status), logger ERROR (Failed_to_refresh (ApiException status)) s1)
      | Inl e \<Rightarrow> (Inl e, logger ERROR (Unexpected_refresh_error e) s1))"

definition refresh_access_token ::
  "env \<Rightarrow> string \<Rightarrow> string \<Rightarrow> string list \<Rightarrow> repo \<Rightarrow> (exn + unit) \<times> repo" where
  "refresh_access_token E k sec sc s =
     refresh_attempts E k sec sc [0..<max_retries_token]
       (logger INFO Token_refresh_called (s\<lparr>refresh_invocations := refresh_invocations s + 1\<rparr>))"

section \<open>Single-page fetch\<close>

definition invoke :: "endpoint_method \<Rightarrow> params \<Rightarrow> repo \<Rightarrow> (exn + response) \<times> repo" where
  "invoke m ps s =
     (m ps (api_calls s),
      s\<lparr>api_calls := api_calls s + 1, events := events s @ [Invoked (api_calls s)]\<rparr>)"

fun retry_attempts ::
  "endpoint_method \<Rightarrow> params \<Rightarrow> nat list \<Rightarrow> repo \<Rightarrow> (exn + response) \<times> repo" where
  "retry_attempts m ps [] s = (Inl (Exception ''Max retries reached''), s)"
| "retry_attempts m ps (attempt # rest) s =
     (case invoke m ps s of
        (Inr r, s1) \<Rightarrow> (Inr r, s1)
      | (Inl (ApiException status), s1) \<Rightarrow>
          if retryable status then
            let wait_time = backoff_factor ^ attempt in
            retry_attempts m ps rest (sleep wait_time (logger INFO (Retrying_in wait_time) s1))
          else (Inl (ApiException status), s1)
      | (Inl e, s1) \<Rightarrow> (Inl e, s1))"

definition retry_with_backoff ::
  "endpoint_method \<Rightarrow> params \<Rightarrow> repo \<Rightarrow> (exn + response) \<times> repo" where
  "retry_with_backoff m ps s = retry_attempts m ps [0..<max_retries_page] s"

text \<open>
  The trace a backoff loop is expected to leave when the attempts listed fail one after the
  other and the next invocation, numbered from \<open>c\<close>, succeeds: each failed invocation is
  followed by its sleep, and the successful one ends the trace.
\<close>

fun backoff_events :: "nat \<Rightarrow> nat list \<Rightarrow> event list" where
  "backoff_events c [] = [Invoked c]"
| "backoff_events c (a # atts) = Invoked c # Slept (backoff_factor ^ a) # backoff_events (Suc c) atts"

text \<open>
  \<open>self.api_client = ApiClient(self.configuration)\<close> followed by
  \<open>self._set_api_instances(self.api_client)\<close>.
\<close>

definition rebuild_client :: "repo \<Rightarrow> repo" where
  "rebuild_client s = s\<lparr>api_client := api_client s + 1, api_instances := api_client s + 1\<rparr>"

text \<open>
  \<open>fetch_data_one_page\<close> returns \<open>None\<close> for an endpoint that is not in the dictionary,
  hence the option in the result. An exception raised inside the handler of
  \<open>ApiException\<close> is not caught by the sibling handler of \<open>Exception\<close>.
\<close>

definition fetch_data_one_page ::
  "env \<Rightarrow> endpoint_arg \<Rightarrow> params \<Rightarrow> repo \<Rightarrow> (exn + response option) \<times> repo" where
  "fetch_data_one_page E endpoint ps s =
     (case endpoint_dict E endpoint of
        None \<Rightarrow> (Inr None, logger ERROR (Invalid_endpoint endpoint) s)
      | Some endpoint_method \<Rightarrow>
          (case invoke endpoint_method ps s of
             (Inr r, s1) \<Rightarrow> (Inr (Some r), s1)
           | (Inl (ApiException status), s1) \<Rightarrow>
               if status = 401 then
                 (case refresh_access_token E (key s1) (secret s1) (scopes s1)
                         (logger INFO Token_expired s1) of
                    (Inl e, s2) \<Rightarrow> (Inl e, s2)
                  | (Inr u, s2) \<Rightarrow>
                      (case endpoint_dict E endpoint of
                         None \<Rightarrow> (Inl KeyError, rebuild_client s2)
                       | Some endpoint_method' \<Rightarrow>
                           (case invoke endpoint_method' ps (rebuild_client s2) of
                              (Inr r, s3) \<Rightarrow> (Inr (Some r), s3)
                            | (Inl e, s3) \<Rightarrow> (Inl e, s3))))
               else if retryable status then
                 (case retry_with_backoff endpoint_method ps
                         (logger WARNING (Api_exception_retrying (ApiException status)) s1) of
                    (Inr r, s2) \<Rightarrow> (Inr (Some r), s2)
                  | (Inl e, s2) \<Rightarrow> (Inl e, s2))
               else (Inl (ApiException status), logger ERROR (Api_exception (ApiException status)) s1)
           | (Inl e, s1) \<Rightarrow> (Inl e, logger ERROR (Error_fetching e) s1)))"

section \<open>Item normalisation\<close>

fun has_dict :: "pyval \<Rightarrow> bool" where
  "has_dict (PyObj attrs) = True"
| "has_dict v = False"

fun get_dict :: "pyval \<Rightarrow> exn + pyval" where
  "get_dict (PyObj attrs) = Inr (PyDict attrs)"
| "get_dict v = Inl AttributeError"

text \<open>The comprehension \<open>[obj.__dict__ for obj in response_items]\<close>.\<close>

fun dict_of_each :: "pyval list \<Rightarrow> exn + pyval list" where
  "dict_of_each [] = Inr []"
| "dict_of_each (obj # rest) =
     (case get_dict obj of
        Inl e \<Rightarrow> Inl e
      | Inr d \<Rightarrow> (case dict_of_each rest of Inl e \<Rightarrow> Inl e | Inr ds \<Rightarrow> Inr (d # ds)))"

text \<open>
  The condition \<open>isinstance(response_items, list) and response_items and
  hasattr(response_items[0], '__dict__')\<close>.
\<close>

fun flatten_condition :: "pyval \<Rightarrow> bool" where
  "flatten_condition (PyList (first # rest)) = has_dict first"
| "flatten_condition v = False"

definition normalize_items :: "pyval \<Rightarrow> exn + pyval" where
  "normalize_items response_items =
     (if flatten_condition response_items then
        (case response_items of
           PyList objs \<Rightarrow> (case dict_of_each objs of Inl e \<Rightarrow> Inl e | Inr ds \<Rightarrow> Inr (PyList ds))
         | v \<Rightarrow> Inr v)
      else Inr response_items)"

text \<open>The attribute names of an item and the keys of a mapping.\<close>

fun attribute_names :: "pyval \<Rightarrow> string list" where
  "attribute_names (PyObj attrs) = map fst attrs"
| "attribute_names v = []"

fun keys_of :: "pyval \<Rightarrow> string list" where
  "keys_of (PyDict kvs) = map fst kvs"
| "keys_of v = []"

section \<open>Pagination\<close>

text \<open>
  \<open>(total_items + page_size - 1) // page_size\<close>, where \<open>page_size\<close> is whatever the
  caller put into the keyword arguments.
\<close>

fun page_count :: "int \<Rightarrow> pyval \<Rightarrow> exn + int" where
  "page_count titems (PyInt page_size) =
     (if page_size = 0 then Inl ZeroDivisionError
      else Inr ((titems + page_size - 1) div page_size))"
| "page_count titems v = Inl TypeError"

text \<open>
  The page count in the words of the specification: \<open>ceil(total_items / page_size)\<close>,
  a quotient of real numbers rounded up.
\<close>

definition spec_total_pages :: "int \<Rightarrow> int \<Rightarrow> int" where
  "spec_total_pages total_count page_size = \<lceil>real_of_int total_count / real_of_int page_size\<rceil>"

text \<open>\<open>params.get(name, default)\<close>.\<close>

definition params_get :: "params \<Rightarrow> string \<Rightarrow> pyval \<Rightarrow> pyval" where
  "params_get ps name dflt = (case ps name of None \<Rightarrow> dflt | Some v \<Rightarrow> v)"

definition get_total_pages ::
  "env \<Rightarrow> endpoint_arg \<Rightarrow> params \<Rightarrow> repo \<Rightarrow> (exn + int) \<times> repo" where
  "get_total_pages E endpoint_type ps s =
     (case fetch_data_one_page E endpoint_type ps s of
        (Inl e, s1) \<Rightarrow> (Inl e, s1)
      | (Inr None, s1) \<Rightarrow> (Inr 1, s1)
      | (Inr (Some res), s1) \<Rightarrow>
          (case total_items res of
             None \<Rightarrow> (Inr 1, s1)
           | Some titems \<Rightarrow>
               (let page_size = params_get ps ''page_size'' (PyInt CURRENT_MAX_DATA_BRIDGES_PAGE_SIZE)
                in case page_count titems page_size of
                     Inl e \<Rightarrow> (Inl e, s1)
                   | Inr total_pages \<Rightarrow>
                       (Inr total_pages,
                        logger WARNING (Total_pages page_size total_pages titems) s1))))"

text \<open>
  \<open>endpoint_type.value\<close> in the log message exists only on members of the enumeration.
\<close>

definition fetch_one_data_bridges_page ::
  "env \<Rightarrow> endpoint_arg \<Rightarrow> params \<Rightarrow> repo \<Rightarrow> (exn + dataframe) \<times> repo" where
  "fetch_one_data_bridges_page E endpoint_type ps s =
     (case fetch_data_one_page E endpoint_type ps s of
        (Inl e, s1) \<Rightarrow> (Inl e, s1)
      | (Inr res, s1) \<Rightarrow>
          (case endpoint_type of
             Foreign label \<Rightarrow> (Inl AttributeError, s1)
           | Member member \<Rightarrow>
               (let s2 = logger INFO (Fetching_page (value_of member)) s1 in
                case res of
                  None \<Rightarrow> (Inr [], logger WARNING No_response_data s2)
                | Some r \<Rightarrow>
                    (case items r of
                       None \<Rightarrow> (Inr [], logger WARNING No_response_data s2)
                     | Some its \<Rightarrow>
                         (case normalize_items its of
                            Inl e \<Rightarrow> (Inl e, s2)
                          | Inr normalized_items \<Rightarrow> (pd_DataFrame E normalized_items, s2))))))"

text \<open>
  The test \<open>'page' not in [params]\<close> compares the string with the one element of the list,
  which is the dictionary itself.
\<close>

datatype operand = StrVal string | DictVal params

fun py_eq :: "operand \<Rightarrow> operand \<Rightarrow> bool" where
  "py_eq (StrVal a) (StrVal b) = (a = b)"
| "py_eq (DictVal a) (DictVal b) = (a = b)"
| "py_eq (StrVal a) (DictVal b) = False"
| "py_eq (DictVal a) (StrVal b) = False"

definition py_in :: "operand \<Rightarrow> operand list \<Rightarrow> bool" where
  "py_in x xs = list_ex (py_eq x) xs"

text \<open>
  The page tasks are run one after the other in the order of submission, and
  \<open>as_completed\<close> hands their results over in that order: one of the schedules the
  thread pool admits. The pool waits for every task, also when one of them raised.
\<close>

fun run_tasks ::
  "env \<Rightarrow> endpoint_arg \<Rightarrow> params list \<Rightarrow> repo \<Rightarrow> (exn + dataframe) list \<times> repo" where
  "run_tasks E endpoint_type [] s = ([], s)"
| "run_tasks E endpoint_type (page_params # rest) s =
     (case fetch_one_data_bridges_page E endpoint_type page_params s of
        (res, s1) \<Rightarrow>
          (case run_tasks E endpoint_type rest s1 of (ress, s2) \<Rightarrow> (res # ress, s2)))"

fun gather :: "env \<Rightarrow> dataframe \<Rightarrow> (exn + dataframe) list \<Rightarrow> exn + dataframe" where
  "gather E all_data_df [] = Inr all_data_df"
| "gather E all_data_df (Inl e # futures) = Inl e"
| "gather E all_data_df (Inr res_df # futures) = gather E (pd_concat E all_data_df res_df) futures"

definition fetch_all_data_bridges_data ::
  "env \<Rightarrow> endpoint_arg \<Rightarrow> params \<Rightarrow> repo \<Rightarrow> (exn + dataframe) \<times> repo" where
  "fetch_all_data_bridges_data E endpoint_type ps s =
     (case get_total_pages E endpoint_type ps s of
        (Inl e, s1) \<Rightarrow> (Inl e, s1)
      | (Inr total_pages, s1) \<Rightarrow>
          (let ps1 = (if \<not> py_in (StrVal ''page'') [DictVal ps]
                      then ps(''page'' \<mapsto> PyInt 1) else ps)
           in case ps1 ''page'' of
                None \<Rightarrow> (Inl KeyError, s1)
              | Some (PyInt first_page) \<Rightarrow>
                  (let tasks = map (\<lambda>page. ps1(''page'' \<mapsto> PyInt page)) [first_page..total_pages];
                       s2 = s1\<lparr>submitted := submitted s1 @ tasks\<rparr>
                   in case run_tasks E endpoint_type tasks s2 of
                        (futures, s3) \<Rightarrow> (gather E [] futures, s3))
              | Some v \<Rightarrow> (Inl TypeError, s1)))"

text \<open>The page numbers of the submitted tasks.\<close>

definition submitted_pages :: "repo \<Rightarrow> pyval option list" where
  "submitted_pages s = map (\<lambda>page_params. page_params ''page'') (submitted s)"

section \<open>Test doubles for the collaborators\<close>

text \<open>
  Collaborators used for concrete runs: a remote method that plays a script of outcomes
  (and a fixed outcome once the script is over), a token provider doing the same, and a
  repository as it is just after construction: \<open>__init__\<close> has made one call of
  \<open>_refresh_access_token\<close>, which took one call of the provider (call number 0), and has
  built one client; no remote operation has been invoked yet.
\<close>

definition scripted :: "'a list \<Rightarrow> 'a \<Rightarrow> nat \<Rightarrow> 'a" where
  "scripted outcomes final k = (if k < length outcomes then outcomes ! k else final)"

definition page_of :: "int \<Rightarrow> pyval list \<Rightarrow> response" where
  "page_of n its = \<lparr>total_items = Some n, items = Some (PyList its)\<rparr>"

definition stub_env :: "(nat \<Rightarrow> exn + string) \<Rightarrow> (nat \<Rightarrow> exn + response) \<Rightarrow> env" where
  "stub_env provider remote =
     \<lparr>token_refresh = (\<lambda>k sec sc. provider),
      currency_usd_indirect_quotation_get = (\<lambda>ps. remote),
      economic_data_indicator_list_get = (\<lambda>ps. remote),
      economic_data_indicator_name_get = (\<lambda>ps. remote),
      pd_DataFrame = (\<lambda>v. case v of PyList rows \<Rightarrow> Inr rows | PyNone \<Rightarrow> Inr [] | _ \<Rightarrow> Inl ValueError),
      pd_concat = (\<lambda>a b. a @ b)\<rparr>"

definition fresh_repo :: repo where
  "fresh_repo =
     \<lparr>key = ''key'', secret = ''secret'',
      scopes = [''vamdatabridges_currency-usdindirectquotation_get''],
      access_token = Some ''token-0'', api_client = 1, api_instances = 1,
      api_calls = 0, token_calls = 1, refresh_invocations = 1,
      slept = [], logged = [], submitted = [], events = []\<rparr>"

definition five_429_then_page :: env where
  "five_429_then_page =
     stub_env (\<lambda>k. Inr ''token-1'')
       (scripted (replicate 5 (Inl (ApiException 429))) (Inr (page_of 3 [PyInt 1, PyInt 2, PyInt 3])))"

definition five_501_then_page :: env where
  "five_501_then_page =
     stub_env (\<lambda>k. Inr ''token-1'')
       (scripted (replicate 5 (Inl (ApiException 501))) (Inr (page_of 3 [PyInt 1, PyInt 2, PyInt 3])))"

definition five_503_then_page :: env where
  "five_503_then_page =
     stub_env (\<lambda>k. Inr ''token-1'')
       (scripted (replicate 5 (Inl (ApiException 503))) (Inr (page_of 1 [PyInt 7])))"

definition always_429 :: env where
  "always_429 = stub_env (\<lambda>k. Inr ''token-1'') (\<lambda>k. Inl (ApiException 429))"

definition provider_always_503 :: env where
  "provider_always_503 = stub_env (\<lambda>k. Inl (ApiException 503)) (\<lambda>k. Inl (ApiException 401))"

definition provider_rejects_403 :: env where
  "provider_rejects_403 = stub_env (\<lambda>k. Inl (ApiException 403)) (\<lambda>k. Inl (ApiException 401))"

definition provider_503_twice_then_403 :: env where
  "provider_503_twice_then_403 =
     stub_env (scripted (replicate 3 (Inl (ApiException 503))) (Inl (ApiException 403)))
       (\<lambda>k. Inl (ApiException 401))"

definition expired_then_page :: env where
  "expired_then_page =
     stub_env (\<lambda>k. Inr ''token-1'') (scripted [Inl (ApiException 401)] (Inr (page_of 2 [PyInt 1, PyInt 2])))"

definition always_401 :: env where
  "always_401 = stub_env (\<lambda>k. Inr ''token-1'') (\<lambda>k. Inl (ApiException 401))"

definition serving :: "response \<Rightarrow> env" where
  "serving res = stub_env (\<lambda>k. Inr ''token-1'') (\<lambda>k. Inr res)"

definition nigeria_from_page_3 :: params where
  "nigeria_from_page_3 =
     [''country_iso3'' \<mapsto> PyStr ''NGA'', ''env'' \<mapsto> PyStr ''prod'', ''page'' \<mapsto> PyInt 3]"

section \<open>Item normalisation: properties\<close>

lemma dict_of_each_objs:
  "\<forall>x\<in>set xs. has_dict x \<Longrightarrow>
     \<exists>ds. dict_of_each xs = Inr ds \<and>
          list_all2 (\<lambda>x d. \<exists>attrs. x = PyObj attrs \<and> d = PyDict attrs) xs ds"
proof (induction xs)
  case Nil
  then show ?case by simp
next
  case (Cons x xs)
  then obtain attrs where "x = PyObj attrs" by (cases x) auto
  with Cons show ?case by auto
qed

lemma flatten_condition_iff:
  "flatten_condition v = (\<exists>x xs. v = PyList (x # xs) \<and> has_dict x)"
  by (cases v rule: flatten_condition.cases) auto

text \<open>
  Claim C9. A non-empty list all of whose items carry a \<open>__dict__\<close> is normalised to a list
  with exactly one mapping per item, in the same order; each mapping is the item's attribute
  dictionary, so its keys are the item's attribute names. A list none of whose items carries
  a \<open>__dict__\<close> (primitives) is returned as it is.
\<close>

theorem normalize_items_flattens_objects:
  "(xs \<noteq> [] \<and> (\<forall>x\<in>set xs. has_dict x) \<longrightarrow>
     (\<exists>ds. normalize_items (PyList xs) = Inr (PyList ds) \<and> length ds = length xs \<and>
           list_all2 (\<lambda>x d. \<exists>attrs. x = PyObj attrs \<and> d = PyDict attrs) xs ds \<and>
           map keys_of ds = map attribute_names xs)) \<and>
   ((\<forall>x\<in>set xs. \<not> has_dict x) \<longrightarrow> normalize_items (PyList xs) = Inr (PyList xs))"
proof (intro conjI impI)
  assume a: "xs \<noteq> [] \<and> (\<forall>x\<in>set xs. has_dict x)"
  then obtain ds where ds: "dict_of_each xs = Inr ds"
      "list_all2 (\<lambda>x d. \<exists>attrs. x = PyObj attrs \<and> d = PyDict attrs) xs ds"
    using dict_of_each_objs by blast
  from a have fc: "flatten_condition (PyList xs)" by (cases xs) auto
  have len: "length ds = length xs" using ds(2) by (simp add: list_all2_lengthD)
  have keys: "map keys_of ds = map attribute_names xs"
    using ds(2) by (induction xs ds rule: list_all2_induct) auto
  show "\<exists>ds. normalize_items (PyList xs) = Inr (PyList ds) \<and> length ds = length xs \<and>
           list_all2 (\<lambda>x d. \<exists>attrs. x = PyObj attrs \<and> d = PyDict attrs) xs ds \<and>
           map keys_of ds = map attribute_names xs"
    using ds fc len keys by (simp add: normalize_items_def)
next
  assume "\<forall>x\<in>set xs. \<not> has_dict x"
  then have "\<not> flatten_condition (PyList xs)" by (cases xs) auto
  then show "normalize_items (PyList xs) = Inr (PyList xs)" by (simp add: normalize_items_def)
qed

theorem normalize_items_flattens_objects_witness:
  "[PyObj [(''name'', PyStr ''USD''), (''rate'', PyInt 5)], PyObj [(''name'', PyStr ''EUR'')]] \<noteq> [] \<and>
   list_all has_dict [PyObj [(''name'', PyStr ''USD''), (''rate'', PyInt 5)], PyObj [(''name'', PyStr ''EUR'')]] \<and>
   normalize_items
       (PyList [PyObj [(''name'', PyStr ''USD''), (''rate'', PyInt 5)], PyObj [(''name'', PyStr ''EUR'')]])
     = Inr (PyList [PyDict [(''name'', PyStr ''USD''), (''rate'', PyInt 5)], PyDict [(''name'', PyStr ''EUR'')]]) \<and>
   \<not> list_ex has_dict [PyInt 1, PyStr ''a''] \<and>
   normalize_items (PyList [PyInt 1, PyStr ''a'']) = Inr (PyList [PyInt 1, PyStr ''a''])"
  using normalize_items_flattens_objects
          [of "[PyObj [(''name'', PyStr ''USD''), (''rate'', PyInt 5)], PyObj [(''name'', PyStr ''EUR'')]]"]
        normalize_items_flattens_objects [of "[PyInt 1, PyStr ''a'']"]
  by (simp add: normalize_items_def)

lemma dict_of_each_primitive:
  "\<not> list_all has_dict xs \<Longrightarrow> dict_of_each xs = Inl AttributeError"
proof (induction xs)
  case Nil
  then show ?case by simp
next
  case (Cons x xs)
  show ?case
  proof (cases "has_dict x")
    case True
    then obtain attrs where "x = PyObj attrs" by (cases x) auto
    with Cons show ?thesis by simp
  next
    case False
    then have "get_dict x = Inl AttributeError" by (cases x) auto
    then show ?thesis by simp
  qed
qed

text \<open>
  Claim C10. Whether \<open>normalize_items\<close> flattens depends only on its input being a
  non-empty list whose first element has a \<open>__dict__\<close>. An input that is not a list, the
  empty list, and a list whose first element has no \<open>__dict__\<close> are returned unchanged,
  whatever the later elements are. A list whose first element has a \<open>__dict__\<close> is always
  flattened, whatever the later elements are: the result is that of the comprehension over
  the whole list and never the input itself; it is the list of the attribute dictionaries
  when every later element has a \<open>__dict__\<close> too, and the \<open>AttributeError\<close> of the
  comprehension when one of them has none, since the decision did not look at it.
\<close>

theorem normalize_items_decides_on_first:
  "(((\<forall>ys. v \<noteq> PyList ys) \<or> v = PyList [] \<or> (\<exists>y ys. v = PyList (y # ys) \<and> \<not> has_dict y))
     \<longrightarrow> normalize_items v = Inr v) \<and>
   normalize_items (PyList []) = Inr (PyList []) \<and>
   (\<not> has_dict x \<longrightarrow> normalize_items (PyList (x # xs)) = Inr (PyList (x # xs))) \<and>
   (has_dict x \<longrightarrow>
      normalize_items (PyList (x # xs))
        = (case dict_of_each (x # xs) of Inl e \<Rightarrow> Inl e | Inr ds \<Rightarrow> Inr (PyList ds)) \<and>
      normalize_items (PyList (x # xs)) \<noteq> Inr (PyList (x # xs))) \<and>
   (has_dict x \<and> \<not> list_all has_dict xs \<longrightarrow>
      normalize_items (PyList (x # xs)) = Inl AttributeError) \<and>
   (has_dict x \<and> list_all has_dict xs \<longrightarrow>
      (\<exists>ds. normalize_items (PyList (x # xs)) = Inr (PyList ds) \<and>
            list_all2 (\<lambda>x d. \<exists>attrs. x = PyObj attrs \<and> d = PyDict attrs) (x # xs) ds))"
proof (intro conjI impI)
  assume "(\<forall>ys. v \<noteq> PyList ys) \<or> v = PyList [] \<or> (\<exists>y ys. v = PyList (y # ys) \<and> \<not> has_dict y)"
  then show "normalize_items v = Inr v"
    by (auto simp: normalize_items_def flatten_condition_iff)
next
  show "normalize_items (PyList []) = Inr (PyList [])" by (simp add: normalize_items_def)
next
  assume "\<not> has_dict x"
  then show "normalize_items (PyList (x # xs)) = Inr (PyList (x # xs))"
    by (simp add: normalize_items_def)
next
  assume h: "has_dict x"
  then show flat: "normalize_items (PyList (x # xs))
        = (case dict_of_each (x # xs) of Inl e \<Rightarrow> Inl e | Inr ds \<Rightarrow> Inr (PyList ds))"
    by (simp add: normalize_items_def)
  from h obtain attrs where x: "x = PyObj attrs" by (cases x) auto
  show "normalize_items (PyList (x # xs)) \<noteq> Inr (PyList (x # xs))"
    unfolding flat using x by (auto split: sum.splits)
next
  assume "has_dict x \<and> \<not> list_all has_dict xs"
  then have "flatten_condition (PyList (x # xs))" "dict_of_each (x # xs) = Inl AttributeError"
    using dict_of_each_primitive[of "x # xs"] by simp_all
  then show "normalize_items (PyList (x # xs)) = Inl AttributeError"
    by (simp add: normalize_items_def del: dict_of_each.simps)
next
  assume a: "has_dict x \<and> list_all has_dict xs"
  then have "\<forall>y\<in>set (x # xs). has_dict y" by (simp add: list_all_iff)
  from dict_of_each_objs[OF this] obtain ds where
    ds: "dict_of_each (x # xs) = Inr ds"
        "list_all2 (\<lambda>x d. \<exists>attrs. x = PyObj attrs \<and> d = PyDict attrs) (x # xs) ds"
    by blast
  from a ds(1) have "normalize_items (PyList (x # xs)) = Inr (PyList ds)"
    by (simp add: normalize_items_def del: dict_of_each.simps)
  with ds(2) show "\<exists>ds. normalize_items (PyList (x # xs)) = Inr (PyList ds) \<and>
            list_all2 (\<lambda>x d. \<exists>attrs. x = PyObj attrs \<and> d = PyDict attrs) (x # xs) ds"
    by blast
qed

theorem normalize_items_decides_on_first_witness:
  "normalize_items (PyStr ''abc'') = Inr (PyStr ''abc'') \<and>
   normalize_items (PyList [PyInt 7, PyObj [(''name'', PyStr ''USD'')]])
     = Inr (PyList [PyInt 7, PyObj [(''name'', PyStr ''USD'')]]) \<and>
   normalize_items (PyList [PyObj [(''name'', PyStr ''USD'')], PyInt 7]) = Inl AttributeError \<and>
   normalize_items (PyList [PyObj [(''name'', PyStr ''USD'')], PyObj [(''name'', PyStr ''EUR'')]])
     = Inr (PyList [PyDict [(''name'', PyStr ''USD'')], PyDict [(''name'', PyStr ''EUR'')]])"
  using normalize_items_decides_on_first [of "PyStr ''abc''" "PyInt 7" "[PyObj [(''name'', PyStr ''USD'')]]"]
        normalize_items_decides_on_first [of "PyStr ''abc''" "PyObj [(''name'', PyStr ''USD'')]" "[PyInt 7]"]
        normalize_items_decides_on_first [of "PyStr ''abc''" "PyObj [(''name'', PyStr ''USD'')]" "[PyObj [(''name'', PyStr ''EUR'')]]"]
  by (simp add: normalize_items_def)

section \<open>Single-page fetch: properties\<close>

text \<open>
  Claim C8. For an endpoint that is not in the endpoint dictionary, \<open>fetch_data_one_page\<close>
  logs the invalid endpoint at level error and returns \<open>None\<close>; nothing else happens, and
  the result is a returned value, not a raised exception.
\<close>

theorem fetch_data_one_page_invalid_endpoint:
  "endpoint_dict E endpoint = None \<Longrightarrow>
     fetch_data_one_page E endpoint ps s
       = (Inr None, s\<lparr>logged := logged s @ [(ERROR, Invalid_endpoint endpoint)]\<rparr>) \<and>
     (\<forall>e. fst (fetch_data_one_page E endpoint ps s) \<noteq> Inl e)"
  by (simp add: fetch_data_one_page_def logger_def)

theorem fetch_data_one_page_invalid_endpoint_witness:
  "endpoint_dict (stub_env (\<lambda>k. Inr ''t'') (\<lambda>k. Inr (page_of 0 []))) (Foreign ''markets'') = None \<and>
   fetch_data_one_page (stub_env (\<lambda>k. Inr ''t'') (\<lambda>k. Inr (page_of 0 [])))
       (Foreign ''markets'') Map.empty fresh_repo
     = (Inr None, fresh_repo\<lparr>logged := logged fresh_repo @ [(ERROR, Invalid_endpoint (Foreign ''markets''))]\<rparr>)"
  using fetch_data_one_page_invalid_endpoint
          [of "stub_env (\<lambda>k. Inr ''t'') (\<lambda>k. Inr (page_of 0 []))" "Foreign ''markets''"
              Map.empty fresh_repo]
  by simp

subsection \<open>The backoff loop\<close>

lemma retry_attempts_fail_step:
  assumes "m ps (api_calls s) = Inl (ApiException st)" and "retryable st"
  shows "\<exists>s1. retry_attempts m ps (a # atts) s = retry_attempts m ps atts s1 \<and>
              api_calls s1 = Suc (api_calls s) \<and> slept s1 = slept s @ [backoff_factor ^ a] \<and>
              events s1 = events s @ [Invoked (api_calls s), Slept (backoff_factor ^ a)]"
  using assms
  by (intro exI[of _ "sleep (backoff_factor ^ a)
         (logger INFO (Retrying_in (backoff_factor ^ a)) (snd (invoke m ps s)))"])
     (simp add: invoke_def Let_def sleep_def logger_def)

lemma retry_attempts_exhausted:
  "\<forall>i<length atts. \<exists>st. m ps (api_calls s + i) = Inl (ApiException st) \<and> retryable st \<Longrightarrow>
     fst (retry_attempts m ps atts s) = Inl (Exception ''Max retries reached'') \<and>
     api_calls (snd (retry_attempts m ps atts s)) = api_calls s + length atts \<and>
     slept (snd (retry_attempts m ps atts s)) = slept s @ map (\<lambda>a. backoff_factor ^ a) atts"
proof (induction atts arbitrary: s)
  case Nil
  then show ?case by simp
next
  case (Cons a atts)
  from Cons.prems obtain st where st: "m ps (api_calls s) = Inl (ApiException st)" "retryable st"
    by fastforce
  from retry_attempts_fail_step[of m ps s st a atts, OF st] obtain s1 where
    s1: "retry_attempts m ps (a # atts) s = retry_attempts m ps atts s1"
        "api_calls s1 = Suc (api_calls s)" "slept s1 = slept s @ [backoff_factor ^ a]"
    by blast
  have "\<forall>i<length atts. \<exists>st. m ps (api_calls s1 + i) = Inl (ApiException st) \<and> retryable st"
  proof (intro allI impI)
    fix i assume "i < length atts"
    then have "Suc i < length (a # atts)" by simp
    with Cons.prems have "\<exists>st. m ps (api_calls s + Suc i) = Inl (ApiException st) \<and> retryable st"
      by blast
    then show "\<exists>st. m ps (api_calls s1 + i) = Inl (ApiException st) \<and> retryable st"
      by (simp add: s1(2))
  qed
  from Cons.IH[OF this] show ?case
    by (simp add: s1 del: retry_attempts.simps)
qed

lemma retry_attempts_success:
  "n < length atts \<Longrightarrow>
   \<forall>i<n. \<exists>st. m ps (api_calls s + i) = Inl (ApiException st) \<and> retryable st \<Longrightarrow>
   m ps (api_calls s + n) = Inr r \<Longrightarrow>
     fst (retry_attempts m ps atts s) = Inr r \<and>
     api_calls (snd (retry_attempts m ps atts s)) = api_calls s + n + 1 \<and>
     slept (snd (retry_attempts m ps atts s)) = slept s @ map (\<lambda>a. backoff_factor ^ a) (take n atts)"
proof (induction atts arbitrary: s n)
  case Nil
  then show ?case by simp
next
  case (Cons a atts)
  show ?case
  proof (cases n)
    case 0
    with Cons.prems show ?thesis by (simp add: invoke_def)
  next
    case (Suc k)
    from Cons.prems Suc obtain st where st: "m ps (api_calls s) = Inl (ApiException st)" "retryable st"
      by fastforce
    from retry_attempts_fail_step[of m ps s st a atts, OF st] obtain s1 where
      s1: "retry_attempts m ps (a # atts) s = retry_attempts m ps atts s1"
          "api_calls s1 = Suc (api_calls s)" "slept s1 = slept s @ [backoff_factor ^ a]"
      by blast
    have k: "k < length atts" using Cons.prems(1) Suc by simp
    have fails: "\<forall>i<k. \<exists>st. m ps (api_calls s1 + i) = Inl (ApiException st) \<and> retryable st"
    proof (intro allI impI)
      fix i assume "i < k"
      then have "Suc i < n" using Suc by simp
      with Cons.prems(2) have "\<exists>st. m ps (api_calls s + Suc i) = Inl (ApiException st) \<and> retryable st"
        by blast
      then show "\<exists>st. m ps (api_calls s1 + i) = Inl (ApiException st) \<and> retryable st"
        by (simp add: s1(2))
    qed
    have ok: "m ps (api_calls s1 + k) = Inr r" using Cons.prems(3) Suc by (simp add: s1(2))
    from Cons.IH[OF k fails ok] show ?thesis
      by (simp add: s1 Suc del: retry_attempts.simps)
  qed
qed

lemma retry_attempts_success_events:
  "n < length atts \<Longrightarrow>
   \<forall>i<n. \<exists>st. m ps (api_calls s + i) = Inl (ApiException st) \<and> retryable st \<Longrightarrow>
   m ps (api_calls s + n) = Inr r \<Longrightarrow>
     events (snd (retry_attempts m ps atts s)) = events s @ backoff_events (api_calls s) (take n atts)"
proof (induction atts arbitrary: s n)
  case Nil
  then show ?case by simp
next
  case (Cons a atts)
  show ?case
  proof (cases n)
    case 0
    with Cons.prems show ?thesis by (simp add: invoke_def)
  next
    case (Suc k)
    from Cons.prems Suc obtain st where st: "m ps (api_calls s) = Inl (ApiException st)" "retryable st"
      by fastforce
    from retry_attempts_fail_step[of m ps s st a atts, OF st] obtain s1 where
      s1: "retry_attempts m ps (a # atts) s = retry_attempts m ps atts s1"
          "api_calls s1 = Suc (api_calls s)"
          "events s1 = events s @ [Invoked (api_calls s), Slept (backoff_factor ^ a)]"
      by blast
    have k: "k < length atts" using Cons.prems(1) Suc by simp
    have fails: "\<forall>i<k. \<exists>st. m ps (api_calls s1 + i) = Inl (ApiException st) \<and> retryable st"
    proof (intro allI impI)
      fix i assume "i < k"
      then have "Suc i < n" using Suc by simp
      with Cons.prems(2) have "\<exists>st. m ps (api_calls s + Suc i) = Inl (ApiException st) \<and> retryable st"
        by blast
      then show "\<exists>st. m ps (api_calls s1 + i) = Inl (ApiException st) \<and> retryable st"
        by (simp add: s1(2))
    qed
    have ok: "m ps (api_calls s1 + k) = Inr r" using Cons.prems(3) Suc by (simp add: s1(2))
    from Cons.IH[OF k fails ok] show ?thesis
      by (simp add: s1 Suc del: retry_attempts.simps)
  qed
qed

lemma backoff_events_4:
  "backoff_events c (take 4 [0..<max_retries_page])
     = [Invoked c, Slept 1, Invoked (c + 1), Slept 2, Invoked (c + 2), Slept 4,
        Invoked (c + 3), Slept 8, Invoked (c + 4)]"
  by (simp add: backoff_factor_def max_retries_page_def upt_rec)

lemma backoff_upto_10: "map (\<lambda>a. backoff_factor ^ a) [0..<max_retries_page] = [1, 2, 4, 8, 16, 32, 64, 128, 256, 512]"
  by (simp add: backoff_factor_def max_retries_page_def upt_rec)

lemma backoff_take_4: "map (\<lambda>a. backoff_factor ^ a) (take 4 [0..<max_retries_page]) = [1, 2, 4, 8]"
  by (simp add: backoff_factor_def max_retries_page_def upt_rec)

lemma retryable_not_401: "retryable st \<Longrightarrow> st \<noteq> 401"
  by (auto simp: retryable_def)

lemma fetch_data_one_page_retryable_path:
  assumes "endpoint_dict E endpoint = Some m"
    and "m ps (api_calls s) = Inl (ApiException st)" and "retryable st"
  shows "fetch_data_one_page E endpoint ps s =
           (case retry_with_backoff m ps
                   (logger WARNING (Api_exception_retrying (ApiException st))
                      (snd (invoke m ps s))) of
              (Inr r, s2) \<Rightarrow> (Inr (Some r), s2)
            | (Inl e, s2) \<Rightarrow> (Inl e, s2))"
  using assms retryable_not_401[OF assms(3)]
  by (simp add: fetch_data_one_page_def invoke_def)

lemma wrap_result_fst:
  "fst (case p of (Inr r, s2) \<Rightarrow> (Inr (Some r), s2) | (Inl e, s2) \<Rightarrow> (Inl e, s2))
     = (case fst p of Inl e \<Rightarrow> Inl e | Inr r \<Rightarrow> Inr (Some r))"
  by (cases p) (auto split: sum.splits)

lemma wrap_result_snd:
  "snd (case p of (Inr r, s2) \<Rightarrow> (Inr (Some r), s2) | (Inl e, s2) \<Rightarrow> (Inl e, s2)) = snd p"
  by (cases p) (auto split: sum.splits)

text \<open>
  Claim C2. When the remote operation raises status 429 on every invocation, the loop of
  \<open>_retry_with_backoff\<close> makes exactly 10 attempts and then raises the exception
  \<open>Max retries reached\<close>. \<open>fetch_data_one_page\<close> makes its own first call before the loop,
  11 invocations in all, and fails with that exception after sleeping 1, 2, ..., 512.
\<close>

theorem fetch_data_one_page_always_429:
  assumes "endpoint_dict E endpoint = Some m" and "\<forall>k. m ps k = Inl (ApiException 429)"
  shows "fst (fetch_data_one_page E endpoint ps s) = Inl (Exception ''Max retries reached'') \<and>
         api_calls (snd (fetch_data_one_page E endpoint ps s)) = api_calls s + 11 \<and>
         slept (snd (fetch_data_one_page E endpoint ps s))
           = slept s @ [1, 2, 4, 8, 16, 32, 64, 128, 256, 512] \<and>
         fst (retry_with_backoff m ps s) = Inl (Exception ''Max retries reached'') \<and>
         api_calls (snd (retry_with_backoff m ps s)) = api_calls s + 10"
proof -
  have r: "retryable 429" by (simp add: retryable_def)
  have all: "\<And>t atts. \<forall>i<length atts. \<exists>st. m ps (api_calls t + i) = Inl (ApiException st) \<and> retryable st"
    using assms(2) r by blast
  define s1 where
    "s1 = logger WARNING (Api_exception_retrying (ApiException 429)) (snd (invoke m ps s))"
  have first: "m ps (api_calls s) = Inl (ApiException 429)" using assms(2) by simp
  have path: "fetch_data_one_page E endpoint ps s =
           (case retry_with_backoff m ps s1 of
              (Inr r, s2) \<Rightarrow> (Inr (Some r), s2)
            | (Inl e, s2) \<Rightarrow> (Inl e, s2))"
    unfolding s1_def by (rule fetch_data_one_page_retryable_path[OF assms(1) first r])
  have loop1: "fst (retry_with_backoff m ps s1) = Inl (Exception ''Max retries reached'') \<and>
     api_calls (snd (retry_with_backoff m ps s1)) = api_calls s1 + length [0..<max_retries_page] \<and>
     slept (snd (retry_with_backoff m ps s1)) = slept s1 @ map (\<lambda>a. backoff_factor ^ a) [0..<max_retries_page]"
    unfolding retry_with_backoff_def by (rule retry_attempts_exhausted) (rule all)
  have loop0: "fst (retry_with_backoff m ps s) = Inl (Exception ''Max retries reached'') \<and>
     api_calls (snd (retry_with_backoff m ps s)) = api_calls s + length [0..<max_retries_page] \<and>
     slept (snd (retry_with_backoff m ps s)) = slept s @ map (\<lambda>a. backoff_factor ^ a) [0..<max_retries_page]"
    unfolding retry_with_backoff_def by (rule retry_attempts_exhausted) (rule all)
  have s1: "api_calls s1 = api_calls s + 1" "slept s1 = slept s"
    by (simp_all add: s1_def logger_def invoke_def)
  have len: "length [0..<max_retries_page] = 10" by (simp add: max_retries_page_def)
  have calls1: "api_calls (snd (retry_with_backoff m ps s1)) = api_calls s + 11"
    using loop1 by (simp add: s1 max_retries_page_def)
  have slept1: "slept (snd (retry_with_backoff m ps s1))
                  = slept s @ [1, 2, 4, 8, 16, 32, 64, 128, 256, 512]"
    using loop1 unfolding backoff_upto_10 by (simp add: s1)
  have calls0: "api_calls (snd (retry_with_backoff m ps s)) = api_calls s + 10"
    using loop0 by (simp add: max_retries_page_def)
  show ?thesis
    unfolding path wrap_result_fst wrap_result_snd
    using loop1 loop0 calls1 slept1 calls0 by simp
qed

theorem fetch_data_one_page_always_429_witness:
  "endpoint_dict always_429 (Member CURRENCY_USD_QUOTE)
     = Some (currency_usd_indirect_quotation_get always_429) \<and>
   fst (fetch_data_one_page always_429 (Member CURRENCY_USD_QUOTE) Map.empty fresh_repo)
     = Inl (Exception ''Max retries reached'') \<and>
   api_calls (snd (fetch_data_one_page always_429 (Member CURRENCY_USD_QUOTE) Map.empty fresh_repo)) = 11 \<and>
   slept (snd (fetch_data_one_page always_429 (Member CURRENCY_USD_QUOTE) Map.empty fresh_repo))
     = [1, 2, 4, 8, 16, 32, 64, 128, 256, 512]"
  using fetch_data_one_page_always_429
          [of always_429 "Member CURRENCY_USD_QUOTE"
              "currency_usd_indirect_quotation_get always_429" Map.empty fresh_repo]
  by (simp add: always_429_def stub_env_def fresh_repo_def)

text \<open>
  Claim C1, as the code has it. When the remote operation raises a retryable status (429,
  500, 502, 503 or 504) five times and then succeeds, \<open>fetch_data_one_page\<close> returns the
  successful result after six invocations, and the delays it has waited are 1, 2, 4, 8: the
  first retry follows the first failure at once, and the loop sleeps only after a failure of
  its own attempts. The trace of events says so: two invocations with no sleep between
  them, then each of the delays 1, 2, 4, 8 followed by one invocation, the last of which
  succeeds.
\<close>

theorem fetch_data_one_page_five_failures:
  assumes "endpoint_dict E endpoint = Some m"
    and "\<forall>i<5. \<exists>st. m ps (api_calls s + i) = Inl (ApiException st) \<and> retryable st"
    and "m ps (api_calls s + 5) = Inr r"
  shows "fst (fetch_data_one_page E endpoint ps s) = Inr (Some r) \<and>
         slept (snd (fetch_data_one_page E endpoint ps s)) = slept s @ [1, 2, 4, 8] \<and>
         api_calls (snd (fetch_data_one_page E endpoint ps s)) = api_calls s + 6 \<and>
         events (snd (fetch_data_one_page E endpoint ps s))
           = events s @
             [Invoked (api_calls s), Invoked (api_calls s + 1), Slept 1,
              Invoked (api_calls s + 2), Slept 2, Invoked (api_calls s + 3), Slept 4,
              Invoked (api_calls s + 4), Slept 8, Invoked (api_calls s + 5)]"
proof -
  from assms(2) obtain st where st: "m ps (api_calls s) = Inl (ApiException st)" "retryable st"
    by fastforce
  define s1 where
    "s1 = logger WARNING (Api_exception_retrying (ApiException st)) (snd (invoke m ps s))"
  have path: "fetch_data_one_page E endpoint ps s =
           (case retry_with_backoff m ps s1 of
              (Inr r, s2) \<Rightarrow> (Inr (Some r), s2)
            | (Inl e, s2) \<Rightarrow> (Inl e, s2))"
    unfolding s1_def by (rule fetch_data_one_page_retryable_path[OF assms(1) st])
  have s1: "api_calls s1 = Suc (api_calls s)" "slept s1 = slept s"
    "events s1 = events s @ [Invoked (api_calls s)]"
    by (simp_all add: s1_def logger_def invoke_def)
  have fails: "\<forall>i<4. \<exists>st. m ps (api_calls s1 + i) = Inl (ApiException st) \<and> retryable st"
  proof (intro allI impI)
    fix i :: nat assume "i < 4"
    then have "Suc i < 5" by simp
    with assms(2) have "\<exists>st. m ps (api_calls s + Suc i) = Inl (ApiException st) \<and> retryable st"
      by blast
    then show "\<exists>st. m ps (api_calls s1 + i) = Inl (ApiException st) \<and> retryable st"
      by (simp add: s1)
  qed
  have eq5: "api_calls s1 + 4 = api_calls s + 5" by (simp add: s1)
  have ok: "m ps (api_calls s1 + 4) = Inr r" unfolding eq5 by (rule assms(3))
  have n: "4 < length [0..<max_retries_page]" by (simp add: max_retries_page_def)
  have loop: "fst (retry_with_backoff m ps s1) = Inr r \<and>
     api_calls (snd (retry_with_backoff m ps s1)) = api_calls s1 + 4 + 1 \<and>
     slept (snd (retry_with_backoff m ps s1))
       = slept s1 @ map (\<lambda>a. backoff_factor ^ a) (take 4 [0..<max_retries_page])"
    unfolding retry_with_backoff_def by (rule retry_attempts_success[of 4 "[0..<max_retries_page]" m ps s1 r, OF n fails ok])
  have calls1: "api_calls (snd (retry_with_backoff m ps s1)) = api_calls s + 6"
    using loop by (simp add: s1)
  have slept1: "slept (snd (retry_with_backoff m ps s1)) = slept s @ [1, 2, 4, 8]"
    using loop unfolding backoff_take_4 by (simp add: s1)
  have "events (snd (retry_with_backoff m ps s1))
          = events s1 @ backoff_events (api_calls s1) (take 4 [0..<max_retries_page])"
    unfolding retry_with_backoff_def
    by (rule retry_attempts_success_events[of 4 "[0..<max_retries_page]" m ps s1 r, OF n fails ok])
  then have events1: "events (snd (retry_with_backoff m ps s1))
          = events s @
             [Invoked (api_calls s), Invoked (api_calls s + 1), Slept 1,
              Invoked (api_calls s + 2), Slept 2, Invoked (api_calls s + 3), Slept 4,
              Invoked (api_calls s + 4), Slept 8, Invoked (api_calls s + 5)]"
    unfolding backoff_events_4 by (simp add: s1)
  show ?thesis
    unfolding path wrap_result_fst wrap_result_snd
    using loop calls1 slept1 events1 by simp
qed

theorem fetch_data_one_page_five_failures_witness:
  "endpoint_dict five_503_then_page (Member ECONOMIC_DATA_LIST)
     = Some (economic_data_indicator_list_get five_503_then_page) \<and>
   fst (fetch_data_one_page five_503_then_page (Member ECONOMIC_DATA_LIST) Map.empty fresh_repo)
     = Inr (Some (page_of 1 [PyInt 7])) \<and>
   slept (snd (fetch_data_one_page five_503_then_page (Member ECONOMIC_DATA_LIST) Map.empty fresh_repo))
     = [1, 2, 4, 8] \<and>
   api_calls (snd (fetch_data_one_page five_503_then_page (Member ECONOMIC_DATA_LIST) Map.empty fresh_repo))
     = 6 \<and>
   events (snd (fetch_data_one_page five_503_then_page (Member ECONOMIC_DATA_LIST) Map.empty fresh_repo))
     = [Invoked 0, Invoked 1, Slept 1, Invoked 2, Slept 2, Invoked 3, Slept 4, Invoked 4, Slept 8,
        Invoked 5]"
  using fetch_data_one_page_five_failures
          [of five_503_then_page "Member ECONOMIC_DATA_LIST"
              "economic_data_indicator_list_get five_503_then_page" Map.empty fresh_repo
              "page_of 1 [PyInt 7]"]
  by (simp add: five_503_then_page_def stub_env_def fresh_repo_def scripted_def retryable_def)

text \<open>
  Claim C1 as stated fails: after five responses with status 429 and a success, the delays
  waited are 1, 2, 4, 8 and not 1, 2, 4, 8, 16. And not every status of the 5xx class is
  retried: with status 501 the first failure is raised again at once, after one invocation
  and no delay.
\<close>

theorem fetch_data_one_page_five_429_delays:
  "fst (fetch_data_one_page five_429_then_page (Member CURRENCY_USD_QUOTE) Map.empty fresh_repo)
     = Inr (Some (page_of 3 [PyInt 1, PyInt 2, PyInt 3])) \<and>
   slept (snd (fetch_data_one_page five_429_then_page (Member CURRENCY_USD_QUOTE) Map.empty fresh_repo))
     = [1, 2, 4, 8] \<and>
   slept (snd (fetch_data_one_page five_429_then_page (Member CURRENCY_USD_QUOTE) Map.empty fresh_repo))
     \<noteq> [1, 2, 4, 8, 16] \<and>
   fst (fetch_data_one_page five_501_then_page (Member CURRENCY_USD_QUOTE) Map.empty fresh_repo)
     = Inl (ApiException 501) \<and>
   api_calls (snd (fetch_data_one_page five_501_then_page (Member CURRENCY_USD_QUOTE) Map.empty fresh_repo))
     = 1"
  by (simp add: fetch_data_one_page_def retry_with_backoff_def invoke_def five_429_then_page_def
        five_501_then_page_def stub_env_def scripted_def fresh_repo_def retryable_def
        max_retries_page_def backoff_factor_def upt_rec logger_def sleep_def Let_def)

section \<open>Token refresh: properties\<close>

lemma refresh_attempts_fail_step:
  assumes "token_refresh E k sec sc (token_calls s) = Inl (ApiException st)" and "retryable st"
  shows "\<exists>s1. refresh_attempts E k sec sc (a # atts) s = refresh_attempts E k sec sc atts s1 \<and>
              token_calls s1 = Suc (token_calls s) \<and> slept s1 = slept s @ [backoff_factor ^ a]"
  using assms
  by (intro exI[of _ "sleep (backoff_factor ^ a)
         (logger WARNING (Token_refresh_failed_retrying st (backoff_factor ^ a))
            (s\<lparr>token_calls := token_calls s + 1,
               events := events s @ [Provider_called (token_calls s)]\<rparr>))"])
     (simp add: Let_def sleep_def logger_def)

lemma refresh_attempts_exhausted:
  "\<forall>i<length atts. \<exists>st. token_refresh E k sec sc (token_calls s + i) = Inl (ApiException st) \<and> retryable st \<Longrightarrow>
     fst (refresh_attempts E k sec sc atts s)
       = Inl (Exception ''Max retries reached while trying to refresh the access token.'') \<and>
     token_calls (snd (refresh_attempts E k sec sc atts s)) = token_calls s + length atts \<and>
     slept (snd (refresh_attempts E k sec sc atts s)) = slept s @ map (\<lambda>a. backoff_factor ^ a) atts"
proof (induction atts arbitrary: s)
  case Nil
  then show ?case by simp
next
  case (Cons a atts)
  from Cons.prems obtain st where
    st: "token_refresh E k sec sc (token_calls s) = Inl (ApiException st)" "retryable st"
    by fastforce
  from refresh_attempts_fail_step[of E k sec sc s st a atts, OF st] obtain s1 where
    s1: "refresh_attempts E k sec sc (a # atts) s = refresh_attempts E k sec sc atts s1"
        "token_calls s1 = Suc (token_calls s)" "slept s1 = slept s @ [backoff_factor ^ a]"
    by blast
  have "\<forall>i<length atts. \<exists>st. token_refresh E k sec sc (token_calls s1 + i) = Inl (ApiException st) \<and> retryable st"
  proof (intro allI impI)
    fix i assume "i < length atts"
    then have "Suc i < length (a # atts)" by simp
    with Cons.prems have "\<exists>st. token_refresh E k sec sc (token_calls s + Suc i) = Inl (ApiException st) \<and> retryable st"
      by blast
    then show "\<exists>st. token_refresh E k sec sc (token_calls s1 + i) = Inl (ApiException st) \<and> retryable st"
      by (simp add: s1(2))
  qed
  from Cons.IH[OF this] show ?case
    by (simp add: s1 del: refresh_attempts.simps)
qed

lemma refresh_attempts_frame:
  "api_calls (snd (refresh_attempts E k sec sc atts s)) = api_calls s \<and>
   api_client (snd (refresh_attempts E k sec sc atts s)) = api_client s \<and>
   refresh_invocations (snd (refresh_attempts E k sec sc atts s)) = refresh_invocations s \<and>
   submitted (snd (refresh_attempts E k sec sc atts s)) = submitted s"
  by (induction atts arbitrary: s)
     (auto simp: sleep_def logger_def Let_def split: sum.splits exn.splits)

lemma refresh_attempts_fst_cong:
  "token_calls s = token_calls t \<Longrightarrow>
     fst (refresh_attempts E k sec sc atts s) = fst (refresh_attempts E k sec sc atts t)"
proof (induction atts arbitrary: s t)
  case Nil
  then show ?case by simp
next
  case (Cons a atts)
  have "\<And>lvl msg w ev ev'. token_calls (sleep w (logger lvl msg (s\<lparr>token_calls := token_calls s + 1, events := ev\<rparr>)))
          = token_calls (sleep w (logger lvl msg (t\<lparr>token_calls := token_calls t + 1, events := ev'\<rparr>)))"
    using Cons.prems by (simp add: sleep_def logger_def)
  from Cons.IH[OF this] Cons.prems show ?case
    by (auto simp: Let_def split: sum.splits exn.splits)
qed

lemma backoff_upto_5: "map (\<lambda>a. backoff_factor ^ a) [0..<max_retries_token] = [1, 2, 4, 8, 16]"
  by (simp add: backoff_factor_def max_retries_token_def upt_rec)

lemma refresh_attempts_rejected:
  "j < length atts \<Longrightarrow>
   \<forall>i<j. \<exists>st. token_refresh E k sec sc (token_calls s + i) = Inl (ApiException st) \<and> retryable st \<Longrightarrow>
   token_refresh E k sec sc (token_calls s + j) = Inl (ApiException status) \<Longrightarrow>
   \<not> retryable status \<Longrightarrow>
     fst (refresh_attempts E k sec sc atts s) = Inl (ApiException status) \<and>
     token_calls (snd (refresh_attempts E k sec sc atts s)) = token_calls s + j + 1 \<and>
     slept (snd (refresh_attempts E k sec sc atts s)) = slept s @ map (\<lambda>a. backoff_factor ^ a) (take j atts)"
proof (induction atts arbitrary: s j)
  case Nil
  then show ?case by simp
next
  case (Cons a atts)
  show ?case
  proof (cases j)
    case 0
    with Cons.prems show ?thesis by (simp add: logger_def)
  next
    case (Suc n)
    from Cons.prems Suc obtain st where
      st: "token_refresh E k sec sc (token_calls s) = Inl (ApiException st)" "retryable st"
      by fastforce
    from refresh_attempts_fail_step[of E k sec sc s st a atts, OF st] obtain s1 where
      s1: "refresh_attempts E k sec sc (a # atts) s = refresh_attempts E k sec sc atts s1"
          "token_calls s1 = Suc (token_calls s)" "slept s1 = slept s @ [backoff_factor ^ a]"
      by blast
    have n: "n < length atts" using Cons.prems(1) Suc by simp
    have fails: "\<forall>i<n. \<exists>st. token_refresh E k sec sc (token_calls s1 + i) = Inl (ApiException st) \<and> retryable st"
    proof (intro allI impI)
      fix i assume "i < n"
      then have "Suc i < j" using Suc by simp
      with Cons.prems(2)
      have "\<exists>st. token_refresh E k sec sc (token_calls s + Suc i) = Inl (ApiException st) \<and> retryable st"
        by blast
      then show "\<exists>st. token_refresh E k sec sc (token_calls s1 + i) = Inl (ApiException st) \<and> retryable st"
        by (simp add: s1(2))
    qed
    have rej: "token_refresh E k sec sc (token_calls s1 + n) = Inl (ApiException status)"
      using Cons.prems(3) Suc by (simp add: s1(2))
    from Cons.IH[OF n fails rej Cons.prems(4)] show ?thesis
      by (simp add: s1 Suc del: refresh_attempts.simps)
  qed
qed

lemma backoff_take_token:
  "j < 5 \<Longrightarrow> map (\<lambda>a. backoff_factor ^ a) (take j [0..<max_retries_token]) = map (\<lambda>a. 2 ^ a) [0..<j]"
  by (simp add: backoff_factor_def max_retries_token_def take_upt)

text \<open>
  Claim C6. When the token provider raises a retryable status at each of five consecutive
  attempts, \<open>_refresh_access_token\<close> makes exactly these five attempts, sleeps 1, 2, 4, 8
  and 16 after them, and raises the exception \<open>Max retries reached while trying to refresh
  the access token.\<close> When the provider raises a status that is not retryable, at the first
  attempt or after \<open>j\<close> retryable failures, that exception is raised again at once: no
  sleep follows it and no further attempt is made.
\<close>

theorem refresh_access_token_retries:
  "((\<forall>i<5. \<exists>st. token_refresh E k sec sc (token_calls s + i) = Inl (ApiException st) \<and> retryable st) \<longrightarrow>
      fst (refresh_access_token E k sec sc s)
        = Inl (Exception ''Max retries reached while trying to refresh the access token.'') \<and>
      token_calls (snd (refresh_access_token E k sec sc s)) = token_calls s + 5 \<and>
      slept (snd (refresh_access_token E k sec sc s)) = slept s @ [1, 2, 4, 8, 16]) \<and>
   (j < 5 \<and>
    (\<forall>i<j. \<exists>st. token_refresh E k sec sc (token_calls s + i) = Inl (ApiException st) \<and> retryable st) \<and>
    token_refresh E k sec sc (token_calls s + j) = Inl (ApiException status) \<and> \<not> retryable status \<longrightarrow>
      fst (refresh_access_token E k sec sc s) = Inl (ApiException status) \<and>
      token_calls (snd (refresh_access_token E k sec sc s)) = token_calls s + j + 1 \<and>
      slept (snd (refresh_access_token E k sec sc s)) = slept s @ map (\<lambda>a. 2 ^ a) [0..<j])"
proof -
  define s0 where
    "s0 = logger INFO Token_refresh_called (s\<lparr>refresh_invocations := refresh_invocations s + 1\<rparr>)"
  have s0: "token_calls s0 = token_calls s" "slept s0 = slept s"
    by (simp_all add: s0_def logger_def)
  have unfold: "refresh_access_token E k sec sc s = refresh_attempts E k sec sc [0..<max_retries_token] s0"
    by (simp add: refresh_access_token_def s0_def)
  have exhausted: "fst (refresh_access_token E k sec sc s)
        = Inl (Exception ''Max retries reached while trying to refresh the access token.'') \<and>
      token_calls (snd (refresh_access_token E k sec sc s)) = token_calls s + 5 \<and>
      slept (snd (refresh_access_token E k sec sc s)) = slept s @ [1, 2, 4, 8, 16]"
    if a: "\<forall>i<5. \<exists>st. token_refresh E k sec sc (token_calls s + i) = Inl (ApiException st) \<and> retryable st"
  proof -
    have "\<forall>i<length [0..<max_retries_token].
            \<exists>st. token_refresh E k sec sc (token_calls s0 + i) = Inl (ApiException st) \<and> retryable st"
      using a by (simp add: s0 max_retries_token_def)
    from refresh_attempts_exhausted[OF this] show ?thesis
      unfolding unfold backoff_upto_5 by (simp add: s0 max_retries_token_def)
  qed
  have rejected: "fst (refresh_access_token E k sec sc s) = Inl (ApiException status) \<and>
      token_calls (snd (refresh_access_token E k sec sc s)) = token_calls s + j + 1 \<and>
      slept (snd (refresh_access_token E k sec sc s)) = slept s @ map (\<lambda>a. 2 ^ a) [0..<j]"
    if b: "j < 5 \<and>
      (\<forall>i<j. \<exists>st. token_refresh E k sec sc (token_calls s + i) = Inl (ApiException st) \<and> retryable st) \<and>
      token_refresh E k sec sc (token_calls s + j) = Inl (ApiException status) \<and> \<not> retryable status"
  proof -
    have j: "j < length [0..<max_retries_token]" using b by (simp add: max_retries_token_def)
    have fails: "\<forall>i<j. \<exists>st. token_refresh E k sec sc (token_calls s0 + i) = Inl (ApiException st) \<and> retryable st"
      using b by (simp add: s0)
    have rej: "token_refresh E k sec sc (token_calls s0 + j) = Inl (ApiException status)"
      using b by (simp add: s0)
    have nr: "\<not> retryable status" using b by simp
    have tk: "map (\<lambda>a. backoff_factor ^ a) (take j [0..<max_retries_token]) = map (\<lambda>a. 2 ^ a) [0..<j]"
      using b by (simp add: backoff_take_token)
    from refresh_attempts_rejected[of j "[0..<max_retries_token]" E k sec sc s0 status, OF j fails rej nr]
    show ?thesis unfolding unfold tk by (simp add: s0)
  qed
  from exhausted rejected show ?thesis by blast
qed

theorem refresh_access_token_retries_witness:
  "fst (refresh_access_token provider_always_503 ''key'' ''secret'' [] fresh_repo)
     = Inl (Exception ''Max retries reached while trying to refresh the access token.'') \<and>
   token_calls (snd (refresh_access_token provider_always_503 ''key'' ''secret'' [] fresh_repo)) = 6 \<and>
   slept (snd (refresh_access_token provider_always_503 ''key'' ''secret'' [] fresh_repo))
     = [1, 2, 4, 8, 16] \<and>
   \<not> retryable 403 \<and>
   fst (refresh_access_token provider_rejects_403 ''key'' ''secret'' [] fresh_repo)
     = Inl (ApiException 403) \<and>
   token_calls (snd (refresh_access_token provider_rejects_403 ''key'' ''secret'' [] fresh_repo)) = 2 \<and>
   slept (snd (refresh_access_token provider_rejects_403 ''key'' ''secret'' [] fresh_repo)) = [] \<and>
   fst (refresh_access_token provider_503_twice_then_403 ''key'' ''secret'' [] fresh_repo)
     = Inl (ApiException 403) \<and>
   token_calls (snd (refresh_access_token provider_503_twice_then_403 ''key'' ''secret'' [] fresh_repo))
     = 4 \<and>
   slept (snd (refresh_access_token provider_503_twice_then_403 ''key'' ''secret'' [] fresh_repo))
     = [1, 2]"
proof -
  have two: "\<forall>i<2. \<exists>st. token_refresh provider_503_twice_then_403 ''key'' ''secret'' []
                          (token_calls fresh_repo + i) = Inl (ApiException st) \<and> retryable st"
    by (simp add: provider_503_twice_then_403_def stub_env_def fresh_repo_def scripted_def
          retryable_def less_Suc_eq numeral_2_eq_2)
  show ?thesis
    using refresh_access_token_retries
            [of provider_always_503 "''key''" "''secret''" "[]" fresh_repo 0 403]
          refresh_access_token_retries
            [of provider_rejects_403 "''key''" "''secret''" "[]" fresh_repo 0 403]
          refresh_access_token_retries
            [of provider_503_twice_then_403 "''key''" "''secret''" "[]" fresh_repo 2 403] two
    by (simp add: provider_always_503_def provider_rejects_403_def provider_503_twice_then_403_def
          stub_env_def fresh_repo_def retryable_def scripted_def upt_rec)
qed

section \<open>Re-authentication on status 401\<close>

lemma refresh_access_token_frame:
  "api_calls (snd (refresh_access_token E k sec sc s)) = api_calls s \<and>
   api_client (snd (refresh_access_token E k sec sc s)) = api_client s \<and>
   refresh_invocations (snd (refresh_access_token E k sec sc s)) = refresh_invocations s + 1 \<and>
   submitted (snd (refresh_access_token E k sec sc s)) = submitted s"
  by (simp add: refresh_access_token_def refresh_attempts_frame logger_def)

lemma refresh_access_token_fst_cong:
  "token_calls s = token_calls t \<Longrightarrow>
     fst (refresh_access_token E k sec sc s) = fst (refresh_access_token E k sec sc t)"
  unfolding refresh_access_token_def
  by (rule refresh_attempts_fst_cong) (simp add: logger_def)

lemma fetch_data_one_page_401_path:
  assumes "endpoint_dict E endpoint = Some m" and "m ps (api_calls s) = Inl (ApiException 401)"
  shows "fetch_data_one_page E endpoint ps s =
           (case refresh_access_token E (key s) (secret s) (scopes s)
                   (logger INFO Token_expired (snd (invoke m ps s))) of
              (Inl e, s2) \<Rightarrow> (Inl e, s2)
            | (Inr u, s2) \<Rightarrow>
                (case invoke m ps (rebuild_client s2) of
                   (Inr r, s3) \<Rightarrow> (Inr (Some r), s3)
                 | (Inl e, s3) \<Rightarrow> (Inl e, s3)))"
  using assms by (simp add: fetch_data_one_page_def invoke_def split: prod.splits sum.splits)

text \<open>
  Claim C5, as the code has it. When the first call of the remote operation raises status
  401, \<open>fetch_data_one_page\<close> calls \<open>_refresh_access_token\<close> exactly once. If that
  refresh returns, the client is rebuilt and the remote operation is called exactly once
  more; the result of the fetch is the result of this second call, be it a page or an
  exception (a second 401 included), and no further refresh is made. If the refresh raises,
  its exception is the result of the fetch: the client is not rebuilt and the call is not
  retried.
\<close>

theorem fetch_data_one_page_expired_token:
  assumes "endpoint_dict E endpoint = Some m" and "m ps (api_calls s) = Inl (ApiException 401)"
  shows "refresh_invocations (snd (fetch_data_one_page E endpoint ps s)) = refresh_invocations s + 1 \<and>
         (fst (refresh_access_token E (key s) (secret s) (scopes s) s) = Inr () \<longrightarrow>
            api_client (snd (fetch_data_one_page E endpoint ps s)) = api_client s + 1 \<and>
            api_calls (snd (fetch_data_one_page E endpoint ps s)) = api_calls s + 2 \<and>
            fst (fetch_data_one_page E endpoint ps s)
              = (case m ps (api_calls s + 1) of Inl e \<Rightarrow> Inl e | Inr r \<Rightarrow> Inr (Some r))) \<and>
         (\<forall>e. fst (refresh_access_token E (key s) (secret s) (scopes s) s) = Inl e \<longrightarrow>
            fst (fetch_data_one_page E endpoint ps s) = Inl e \<and>
            api_calls (snd (fetch_data_one_page E endpoint ps s)) = api_calls s + 1 \<and>
            api_client (snd (fetch_data_one_page E endpoint ps s)) = api_client s)"
proof -
  define s1 where "s1 = logger INFO Token_expired (snd (invoke m ps s))"
  obtain tok s2 where ref: "refresh_access_token E (key s) (secret s) (scopes s) s1 = (tok, s2)"
    by (cases "refresh_access_token E (key s) (secret s) (scopes s) s1")
  have s1: "api_calls s1 = api_calls s + 1" "api_client s1 = api_client s"
    "refresh_invocations s1 = refresh_invocations s" "token_calls s1 = token_calls s"
    by (simp_all add: s1_def logger_def invoke_def)
  have s2: "api_calls s2 = api_calls s + 1" "api_client s2 = api_client s"
    "refresh_invocations s2 = refresh_invocations s + 1"
    using refresh_access_token_frame[of E "key s" "secret s" "scopes s" s1] ref by (simp_all add: s1)
  have tok: "fst (refresh_access_token E (key s) (secret s) (scopes s) s) = tok"
    using refresh_access_token_fst_cong[of s s1 E "key s" "secret s" "scopes s"] ref by (simp add: s1)
  have path: "fetch_data_one_page E endpoint ps s =
           (case (tok, s2) of
              (Inl e, s2) \<Rightarrow> (Inl e, s2)
            | (Inr u, s2) \<Rightarrow>
                (case invoke m ps (rebuild_client s2) of
                   (Inr r, s3) \<Rightarrow> (Inr (Some r), s3)
                 | (Inl e, s3) \<Rightarrow> (Inl e, s3)))"
    using fetch_data_one_page_401_path[OF assms] ref by (simp add: s1_def)
  show ?thesis
  proof (cases tok)
    case (Inl e)
    then have "fetch_data_one_page E endpoint ps s = (Inl e, s2)" using path by simp
    then show ?thesis using Inl tok s2 by simp
  next
    case (Inr u)
    define s3 where "s3 = snd (invoke m ps (rebuild_client s2))"
    have inv: "invoke m ps (rebuild_client s2) = (m ps (api_calls s + 1), s3)"
      by (simp add: invoke_def rebuild_client_def s2 s3_def)
    have s3: "api_calls s3 = api_calls s + 2" "api_client s3 = api_client s + 1"
      "refresh_invocations s3 = refresh_invocations s + 1"
      by (simp_all add: s3_def invoke_def rebuild_client_def s2)
    have F: "fetch_data_one_page E endpoint ps s =
           (case m ps (api_calls s + 1) of Inl e \<Rightarrow> Inl e | Inr r \<Rightarrow> Inr (Some r), s3)"
      using path Inr inv by (simp split: sum.splits)
    show ?thesis unfolding F using Inr tok s3 by simp
  qed
qed

theorem fetch_data_one_page_expired_token_witness:
  "fst (fetch_data_one_page expired_then_page (Member CURRENCY_USD_QUOTE) Map.empty fresh_repo)
     = Inr (Some (page_of 2 [PyInt 1, PyInt 2])) \<and>
   refresh_invocations (snd (fetch_data_one_page expired_then_page (Member CURRENCY_USD_QUOTE) Map.empty fresh_repo))
     = refresh_invocations fresh_repo + 1 \<and>
   api_calls (snd (fetch_data_one_page expired_then_page (Member CURRENCY_USD_QUOTE) Map.empty fresh_repo)) = 2 \<and>
   api_client (snd (fetch_data_one_page expired_then_page (Member CURRENCY_USD_QUOTE) Map.empty fresh_repo))
     = api_client fresh_repo + 1 \<and>
   fst (fetch_data_one_page always_401 (Member CURRENCY_USD_QUOTE) Map.empty fresh_repo)
     = Inl (ApiException 401) \<and>
   refresh_invocations (snd (fetch_data_one_page always_401 (Member CURRENCY_USD_QUOTE) Map.empty fresh_repo))
     = refresh_invocations fresh_repo + 1 \<and>
   api_calls (snd (fetch_data_one_page always_401 (Member CURRENCY_USD_QUOTE) Map.empty fresh_repo)) = 2 \<and>
   fst (fetch_data_one_page provider_always_503 (Member CURRENCY_USD_QUOTE) Map.empty fresh_repo)
     = Inl (Exception ''Max retries reached while trying to refresh the access token.'') \<and>
   api_calls (snd (fetch_data_one_page provider_always_503 (Member CURRENCY_USD_QUOTE) Map.empty fresh_repo)) = 1"
proof -
  have ok: "\<And>remote. fst (refresh_access_token (stub_env (\<lambda>k. Inr ''token-1'') remote)
               (key fresh_repo) (secret fresh_repo) (scopes fresh_repo) fresh_repo) = Inr ()"
    by (simp add: refresh_access_token_def stub_env_def fresh_repo_def max_retries_token_def
          upt_rec logger_def Let_def)
  have ko: "fst (refresh_access_token provider_always_503
               (key fresh_repo) (secret fresh_repo) (scopes fresh_repo) fresh_repo)
             = Inl (Exception ''Max retries reached while trying to refresh the access token.'')"
    by (simp add: refresh_access_token_def provider_always_503_def stub_env_def fresh_repo_def
          max_retries_token_def retryable_def upt_rec logger_def sleep_def Let_def)
  show ?thesis
    using fetch_data_one_page_expired_token [of expired_then_page "Member CURRENCY_USD_QUOTE"
                "currency_usd_indirect_quotation_get expired_then_page" Map.empty fresh_repo]
          fetch_data_one_page_expired_token [of always_401 "Member CURRENCY_USD_QUOTE"
                "currency_usd_indirect_quotation_get always_401" Map.empty fresh_repo]
          fetch_data_one_page_expired_token [of provider_always_503 "Member CURRENCY_USD_QUOTE"
                "currency_usd_indirect_quotation_get provider_always_503" Map.empty fresh_repo]
          ok ko
    by (simp add: expired_then_page_def always_401_def provider_always_503_def stub_env_def
          scripted_def fresh_repo_def)
qed

text \<open>
  Claim C5 as stated fails when the refresh itself fails: the remote operation raises 401,
  the token provider rejects the refresh with status 403, and the fetch raises that
  exception after a single remote call and without rebuilding the client.
\<close>

theorem fetch_data_one_page_refresh_rejected:
  "fst (fetch_data_one_page provider_rejects_403 (Member CURRENCY_USD_QUOTE) Map.empty fresh_repo)
     = Inl (ApiException 403) \<and>
   api_calls (snd (fetch_data_one_page provider_rejects_403 (Member CURRENCY_USD_QUOTE) Map.empty fresh_repo))
     = 1 \<and>
   api_client (snd (fetch_data_one_page provider_rejects_403 (Member CURRENCY_USD_QUOTE) Map.empty fresh_repo))
     = api_client fresh_repo"
  by (simp add: fetch_data_one_page_def refresh_access_token_def invoke_def provider_rejects_403_def
        stub_env_def fresh_repo_def retryable_def max_retries_token_def upt_rec logger_def Let_def)

section \<open>Pagination: properties\<close>

lemma ceil_div_aux:
  fixes n p :: int
  assumes "0 < p"
  shows "(n + p - 1) div p = - ((- n) div p)"
proof -
  define q where "q = (- n) div p"
  define r where "r = (- n) mod p"
  have r: "0 \<le> r" "r < p" using assms by (simp_all add: r_def)
  have "- n = p * q + r" by (simp add: q_def r_def)
  then have "n + p - 1 = p * (- q) + (p - 1 - r)" by (simp add: algebra_simps)
  moreover have "0 \<le> p - 1 - r" "p - 1 - r < p" using r by simp_all
  ultimately have "(n + p - 1) div p = - q" by (rule int_div_pos_eq)
  then show ?thesis by (simp add: q_def)
qed

lemma page_count_ceiling:
  "0 < p \<Longrightarrow> page_count n (PyInt p) = Inr (spec_total_pages n p)"
  by (simp add: spec_total_pages_def ceiling_divide_eq_div ceil_div_aux)

lemma get_total_pages_some:
  assumes "fst (fetch_data_one_page E endpoint ps s) = Inr (Some res)" and "total_items res = Some n"
  shows "fst (get_total_pages E endpoint ps s)
           = page_count n (params_get ps ''page_size'' (PyInt CURRENT_MAX_DATA_BRIDGES_PAGE_SIZE))"
  using assms
  by (cases "fetch_data_one_page E endpoint ps s")
     (simp add: get_total_pages_def Let_def split: sum.splits)

lemma fetch_serving:
  "fetch_data_one_page (serving res) (Member CURRENCY_USD_QUOTE) ps s
     = (Inr (Some res), s\<lparr>api_calls := api_calls s + 1, events := events s @ [Invoked (api_calls s)]\<rparr>)"
  by (simp add: fetch_data_one_page_def serving_def stub_env_def invoke_def)

lemma fetch_foreign:
  "fetch_data_one_page E (Foreign label) ps s
     = (Inr None, logger ERROR (Invalid_endpoint (Foreign label)) s)"
  by (simp add: fetch_data_one_page_def)

text \<open>
  Claim C7. When the probed page carries a total-item count, \<open>get_total_pages\<close> returns
  \<open>ceil(total_items / page_size)\<close>, where \<open>page_size\<close> is the (positive) value of the
  key \<open>page_size\<close> of the parameters, and 1000 when the key is absent; for 2500 and 1000
  items with page size 1000 the count is 3 and 1. When the probed page has no attribute
  \<open>total_items\<close>, or the fetch returned \<open>None\<close>, the count is 1.
\<close>

theorem get_total_pages_ceiling:
  "(fst (fetch_data_one_page E endpoint ps s) = Inr (Some res) \<and> total_items res = Some n \<and>
      ps ''page_size'' = Some (PyInt p) \<and> 0 < p \<longrightarrow>
        fst (get_total_pages E endpoint ps s) = Inr (spec_total_pages n p)) \<and>
   (fst (fetch_data_one_page E endpoint ps s) = Inr (Some res) \<and> total_items res = Some n \<and>
      ps ''page_size'' = None \<longrightarrow>
        fst (get_total_pages E endpoint ps s) = Inr (spec_total_pages n 1000)) \<and>
   (fst (fetch_data_one_page E endpoint ps s) = Inr (Some res) \<and> total_items res = None \<longrightarrow>
        get_total_pages E endpoint ps s = (Inr 1, snd (fetch_data_one_page E endpoint ps s))) \<and>
   (fst (fetch_data_one_page E endpoint ps s) = Inr None \<longrightarrow>
        get_total_pages E endpoint ps s = (Inr 1, snd (fetch_data_one_page E endpoint ps s))) \<and>
   page_count 2500 (PyInt 1000) = Inr 3 \<and> page_count 1000 (PyInt 1000) = Inr 1"
proof (intro conjI impI)
  assume a: "fst (fetch_data_one_page E endpoint ps s) = Inr (Some res) \<and> total_items res = Some n \<and>
      ps ''page_size'' = Some (PyInt p) \<and> 0 < p"
  then have "fst (get_total_pages E endpoint ps s) = page_count n (PyInt p)"
    using get_total_pages_some[of E endpoint ps s res n] by (simp add: params_get_def)
  then show "fst (get_total_pages E endpoint ps s) = Inr (spec_total_pages n p)"
    using a page_count_ceiling[of p n] by simp
next
  assume a: "fst (fetch_data_one_page E endpoint ps s) = Inr (Some res) \<and> total_items res = Some n \<and>
      ps ''page_size'' = None"
  then have "fst (get_total_pages E endpoint ps s) = page_count n (PyInt 1000)"
    using get_total_pages_some[of E endpoint ps s res n]
    by (simp add: params_get_def CURRENT_MAX_DATA_BRIDGES_PAGE_SIZE_def)
  then show "fst (get_total_pages E endpoint ps s) = Inr (spec_total_pages n 1000)"
    using page_count_ceiling[of 1000 n] by simp
next
  assume "fst (fetch_data_one_page E endpoint ps s) = Inr (Some res) \<and> total_items res = None"
  then show "get_total_pages E endpoint ps s = (Inr 1, snd (fetch_data_one_page E endpoint ps s))"
    by (cases "fetch_data_one_page E endpoint ps s") (simp add: get_total_pages_def)
next
  assume "fst (fetch_data_one_page E endpoint ps s) = Inr None"
  then show "get_total_pages E endpoint ps s = (Inr 1, snd (fetch_data_one_page E endpoint ps s))"
    by (cases "fetch_data_one_page E endpoint ps s") (simp add: get_total_pages_def)
qed simp_all

theorem get_total_pages_ceiling_witness:
  "fst (get_total_pages (serving (page_of 2500 [])) (Member CURRENCY_USD_QUOTE)
          [''page_size'' \<mapsto> PyInt 1000] fresh_repo) = Inr 3 \<and>
   fst (get_total_pages (serving (page_of 1000 [])) (Member CURRENCY_USD_QUOTE)
          [''page_size'' \<mapsto> PyInt 1000] fresh_repo) = Inr 1 \<and>
   fst (get_total_pages (serving (page_of 2500 [])) (Member CURRENCY_USD_QUOTE)
          [''country_iso3'' \<mapsto> PyStr ''NGA''] fresh_repo) = Inr 3 \<and>
   fst (get_total_pages (serving \<lparr>total_items = None, items = Some (PyList [])\<rparr>)
          (Member CURRENCY_USD_QUOTE) Map.empty fresh_repo) = Inr 1 \<and>
   fst (get_total_pages (serving (page_of 2500 [])) (Foreign ''markets'') Map.empty fresh_repo) = Inr 1"
  using get_total_pages_ceiling [of "serving (page_of 2500 [])" "Member CURRENCY_USD_QUOTE"
               "[''page_size'' \<mapsto> PyInt 1000]" fresh_repo "page_of 2500 []" 2500 1000]
        get_total_pages_ceiling [of "serving (page_of 1000 [])" "Member CURRENCY_USD_QUOTE"
               "[''page_size'' \<mapsto> PyInt 1000]" fresh_repo "page_of 1000 []" 1000 1000]
        get_total_pages_ceiling [of "serving (page_of 2500 [])" "Member CURRENCY_USD_QUOTE"
               "[''country_iso3'' \<mapsto> PyStr ''NGA'']" fresh_repo "page_of 2500 []" 2500 1000]
        get_total_pages_ceiling [of "serving \<lparr>total_items = None, items = Some (PyList [])\<rparr>" "Member CURRENCY_USD_QUOTE"
               Map.empty fresh_repo "\<lparr>total_items = None, items = Some (PyList [])\<rparr>" 0 1000]
        get_total_pages_ceiling [of "serving (page_of 2500 [])" "Foreign ''markets''"
               Map.empty fresh_repo "page_of 2500 []" 2500 1000]
  by (simp add: fetch_serving fetch_foreign page_of_def spec_total_pages_def)

subsection \<open>The submitted page tasks\<close>

lemma retry_attempts_submitted:
  "submitted (snd (retry_attempts m ps atts s)) = submitted s"
  by (induction atts arbitrary: s)
     (auto simp: invoke_def sleep_def logger_def Let_def split: sum.splits exn.splits)

lemma fetch_data_one_page_submitted:
  "submitted (snd (fetch_data_one_page E endpoint ps s)) = submitted s"
proof -
  have r: "\<And>m t. submitted (snd (retry_with_backoff m ps t)) = submitted t"
    by (simp add: retry_with_backoff_def retry_attempts_submitted)
  have f: "\<And>k sec sc t. submitted (snd (refresh_access_token E k sec sc t)) = submitted t"
    by (simp add: refresh_access_token_frame)
  have r': "\<And>m t a b. retry_with_backoff m ps t = (a, b) \<Longrightarrow> submitted b = submitted t"
    using r by (metis snd_conv)
  have f': "\<And>k sec sc t a b. refresh_access_token E k sec sc t = (a, b) \<Longrightarrow> submitted b = submitted t"
    using f by (metis snd_conv)
  show ?thesis
    by (auto simp: fetch_data_one_page_def invoke_def logger_def rebuild_client_def
             split: option.splits prod.splits sum.splits exn.splits dest!: r' f')
qed

lemma get_total_pages_submitted:
  "submitted (snd (get_total_pages E endpoint ps s)) = submitted s"
  using fetch_data_one_page_submitted[of E endpoint ps s]
  by (auto simp: get_total_pages_def logger_def Let_def
           split: option.splits prod.splits sum.splits)

lemma fetch_one_data_bridges_page_submitted:
  "submitted (snd (fetch_one_data_bridges_page E endpoint ps s)) = submitted s"
  using fetch_data_one_page_submitted[of E endpoint ps s]
  by (auto simp: fetch_one_data_bridges_page_def logger_def Let_def
           split: option.splits prod.splits sum.splits endpoint_arg.splits)

lemma run_tasks_submitted:
  "submitted (snd (run_tasks E endpoint tasks s)) = submitted s"
proof (induction tasks arbitrary: s)
  case Nil
  then show ?case by simp
next
  case (Cons t tasks)
  have "snd (run_tasks E endpoint (t # tasks) s)
          = snd (run_tasks E endpoint tasks (snd (fetch_one_data_bridges_page E endpoint t s)))"
    by (simp split: prod.splits)
  then show ?case
    using fetch_one_data_bridges_page_submitted[of E endpoint t s]
          Cons.IH[of "snd (fetch_one_data_bridges_page E endpoint t s)"]
    by simp
qed

lemma page_never_in_singleton: "\<not> py_in (StrVal ''page'') [DictVal ps]"
  by (simp add: py_in_def)

lemma fetch_all_unfold:
  assumes "get_total_pages E endpoint ps s = (Inr n, s1)"
  shows "fetch_all_data_bridges_data E endpoint ps s =
           (let tasks = map (\<lambda>page. ps(''page'' \<mapsto> PyInt page)) [1..n];
                s2 = s1\<lparr>submitted := submitted s1 @ tasks\<rparr>
            in case run_tasks E endpoint tasks s2 of (futures, s3) \<Rightarrow> (gather E [] futures, s3))"
  using assms by (simp add: fetch_all_data_bridges_data_def page_never_in_singleton Let_def)

lemma fetch_all_submits_from_page_one:
  assumes "fst (get_total_pages E endpoint ps s) = Inr n"
  shows "submitted_pages (snd (fetch_all_data_bridges_data E endpoint ps s))
           = submitted_pages s @ map (\<lambda>page. Some (PyInt page)) [1..n]"
proof -
  obtain s1 where g: "get_total_pages E endpoint ps s = (Inr n, s1)"
    using assms by (cases "get_total_pages E endpoint ps s") simp
  have s1: "submitted s1 = submitted s" using get_total_pages_submitted[of E endpoint ps s] g by simp
  define tasks where "tasks = map (\<lambda>page. ps(''page'' \<mapsto> PyInt page)) [1..n]"
  define s2 where "s2 = s1\<lparr>submitted := submitted s1 @ tasks\<rparr>"
  have "snd (fetch_all_data_bridges_data E endpoint ps s) = snd (run_tasks E endpoint tasks s2)"
    unfolding fetch_all_unfold[OF g] by (simp add: tasks_def s2_def Let_def split: prod.splits)
  then have "submitted (snd (fetch_all_data_bridges_data E endpoint ps s)) = submitted s @ tasks"
    by (simp add: run_tasks_submitted s2_def s1)
  then show ?thesis by (simp add: submitted_pages_def tasks_def comp_def)
qed

lemma fetch_all_no_pages:
  assumes "fst (get_total_pages E endpoint ps s) = Inr 0"
  shows "fst (fetch_all_data_bridges_data E endpoint ps s) = Inr [] \<and>
         submitted (snd (fetch_all_data_bridges_data E endpoint ps s)) = submitted s"
proof -
  obtain s1 where g: "get_total_pages E endpoint ps s = (Inr 0, s1)"
    using assms by (cases "get_total_pages E endpoint ps s") simp
  have s1: "submitted s1 = submitted s" using get_total_pages_submitted[of E endpoint ps s] g by simp
  show ?thesis unfolding fetch_all_unfold[OF g] by (simp add: s1)
qed

text \<open>
  Claim C4, as the code has it. When the probed page reports a total item count of zero and
  the page size is positive (the default 1000, or a positive value from the parameters),
  the page count computed is 0, the page-count computation raises nothing, no page task is
  submitted, and the result of \<open>fetch_all_data_bridges_data\<close> is the empty table.
\<close>

theorem fetch_all_zero_items:
  assumes "fst (fetch_data_one_page E endpoint ps s) = Inr (Some res)"
    and "total_items res = Some 0"
    and "params_get ps ''page_size'' (PyInt CURRENT_MAX_DATA_BRIDGES_PAGE_SIZE) = PyInt p"
    and "0 < p"
  shows "fst (get_total_pages E endpoint ps s) = Inr 0 \<and>
         fst (fetch_all_data_bridges_data E endpoint ps s) = Inr [] \<and>
         submitted (snd (fetch_all_data_bridges_data E endpoint ps s)) = submitted s"
proof -
  have "page_count 0 (PyInt p) = Inr 0" using assms(4) by simp
  then have g: "fst (get_total_pages E endpoint ps s) = Inr 0"
    using get_total_pages_some[OF assms(1,2)] assms(3) by simp
  from fetch_all_no_pages[OF g] g show ?thesis by simp
qed

theorem fetch_all_zero_items_witness:
  "fst (get_total_pages (serving (page_of 0 [])) (Member ECONOMIC_DATA_VALUES)
          [''page_size'' \<mapsto> PyInt 500] fresh_repo) = Inr 0 \<and>
   fst (fetch_all_data_bridges_data (serving (page_of 0 [])) (Member ECONOMIC_DATA_VALUES)
          [''page_size'' \<mapsto> PyInt 500] fresh_repo) = Inr [] \<and>
   submitted (snd (fetch_all_data_bridges_data (serving (page_of 0 [])) (Member ECONOMIC_DATA_VALUES)
          [''page_size'' \<mapsto> PyInt 500] fresh_repo)) = []"
  using fetch_all_zero_items [of "serving (page_of 0 [])" "Member ECONOMIC_DATA_VALUES"
              "[''page_size'' \<mapsto> PyInt 500]" fresh_repo "page_of 0 []" 500]
  by (simp add: fetch_data_one_page_def serving_def stub_env_def invoke_def page_of_def
        params_get_def fresh_repo_def)

text \<open>
  Claim C4 as stated fails: with zero items and the default page size the page count is 0,
  which is not at least 1.
\<close>

theorem get_total_pages_zero_items:
  "fst (get_total_pages (serving (page_of 0 [])) (Member CURRENCY_USD_QUOTE) Map.empty fresh_repo)
     = Inr 0"
  by (simp add: get_total_pages_def fetch_serving page_of_def params_get_def
        CURRENT_MAX_DATA_BRIDGES_PAGE_SIZE_def)

text \<open>
  Claim C3. The caller asks for the pages from page 3 on, and the remote reports 4500 items,
  that is 5 pages. The claim says that the tasks submitted are those of pages 3, 4 and 5.
  The test \<open>'page' not in [params]\<close> is always true, so the starting page is overwritten
  with 1 and the tasks submitted are those of pages 1 to 5.
\<close>

theorem fetch_all_ignores_starting_page:
  "submitted_pages
     (snd (fetch_all_data_bridges_data (serving (page_of 4500 [])) (Member CURRENCY_USD_QUOTE)
             nigeria_from_page_3 fresh_repo))
     = [Some (PyInt 1), Some (PyInt 2), Some (PyInt 3), Some (PyInt 4), Some (PyInt 5)] \<and>
   submitted_pages
     (snd (fetch_all_data_bridges_data (serving (page_of 4500 [])) (Member CURRENCY_USD_QUOTE)
             nigeria_from_page_3 fresh_repo))
     \<noteq> [Some (PyInt 3), Some (PyInt 4), Some (PyInt 5)]"
proof -
  have "fst (get_total_pages (serving (page_of 4500 [])) (Member CURRENCY_USD_QUOTE)
               nigeria_from_page_3 fresh_repo) = Inr 5"
    by (simp add: get_total_pages_def fetch_serving page_of_def params_get_def
          CURRENT_MAX_DATA_BRIDGES_PAGE_SIZE_def nigeria_from_page_3_def)
  from fetch_all_submits_from_page_one[OF this] show ?thesis
    by (simp add: submitted_pages_def fresh_repo_def upto_rec1)
qed

end
